theory Spec2Isabelle
  imports Main
begin

section \<open>Data model\<close>

text \<open>
  The scorer keeps one \<open>ScoreState\<close> value and replaces it through the updater functions
  passed to \<open>setScore\<close>. Each updater is modelled as a function from the current state to
  the next one. TypeScript's \<open>number\<close> is modelled as \<open>int\<close>: the tool declarations give
  every numeric argument the type INTEGER, and all arithmetic of the updaters is addition
  and subtraction of such values.
\<close>

datatype extra = wide | no_ball

text \<open>
  \<open>BallEvent\<close> of the type declarations. The field \<open>runs\<close> of a ball is named
  \<open>ballRuns\<close> here, since \<open>ScoreState\<close> has a field \<open>runs\<close> too; the optional
  \<open>extraType\<close> is an option.
\<close>

record BallEvent =
  display :: string
  ballRuns :: int
  isWicket :: bool
  isLegalDelivery :: bool
  extraType :: "extra option"

record ScoreState =
  runs :: int
  wickets :: int
  overs :: int
  balls :: int
  recentThisOver :: "BallEvent list"
  inningsOver :: bool
  targetOvers :: int
  maxWickets :: int

definition INITIAL_SCORE_STATE :: ScoreState where
  "INITIAL_SCORE_STATE =
     \<lparr>runs = 0, wickets = 0, overs = 0, balls = 0, recentThisOver = [],
      inningsOver = False, targetOvers = 20, maxWickets = 10\<rparr>"

text \<open>
  The \<open>type\<close> string of a function call together with its \<open>args\<close> object, without the
  optional \<open>ballNumber\<close>, which \<open>handleGeminiFunctionCall\<close> reads from \<open>args\<close> and hands
  over separately. Required arguments of the tool declarations are present;
  \<open>runsOnDismissal\<close> is optional for the code (\<open>args.runsOnDismissal || 0\<close>).
  \<open>otherType\<close> stands for a \<open>type\<close> that matches no case of the \<open>switch\<close>.
\<close>

datatype delivery =
    addRuns int
  | declareWicket "int option"
  | declareExtra extra int
  | otherType

datatype functionCall =
    clearLastBall
  | deliveryCall delivery "int option"

section \<open>Rendering of numbers\<close>

text \<open>
  \<open>Number.prototype.toString\<close> and template interpolation of an integer-valued number:
  the decimal digits, most significant first, after a minus sign when negative.
\<close>

definition digitChar :: "nat \<Rightarrow> char" where
  "digitChar d = ''0123456789'' ! d"

fun natToString :: "nat \<Rightarrow> string" where
  "natToString n =
     (if n < 10 then [digitChar n] else natToString (n div 10) @ [digitChar (n mod 10)])"

declare natToString.simps [simp del]

definition toString :: "int \<Rightarrow> string" where
  "toString i = (if i < 0 then CHR ''-'' # natToString (nat (- i)) else natToString (nat i))"

text \<open>
  The reading of a string of digits as a decimal number, used to state that a label is
  the decimal string of a number of runs.
\<close>

definition digitValue :: "char \<Rightarrow> nat" where
  "digitValue c = of_char c - 48"

definition decimalValue :: "string \<Rightarrow> nat" where
  "decimalValue cs = foldl (\<lambda>a c. 10 * a + digitValue c) 0 cs"

section \<open>The updaters\<close>

text \<open>Step 2 of \<open>recordDelivery\<close>: the new \<open>BallEvent\<close> built from the function call.\<close>

definition newBallEvent :: "delivery \<Rightarrow> BallEvent" where
  "newBallEvent d =
     (let ev = \<lparr>display = '''', ballRuns = 0, isWicket = False, isLegalDelivery = False,
                extraType = None\<rparr>
      in case d of
           addRuns r \<Rightarrow>
             ev\<lparr>ballRuns := r, display := toString r, isLegalDelivery := True\<rparr>
         | declareWicket rd \<Rightarrow>
             (let runsOnDismissal = (case rd of None \<Rightarrow> 0 | Some v \<Rightarrow> v)
              in ev\<lparr>ballRuns := runsOnDismissal, isWicket := True,
                     display := ''W'' @ (if runsOnDismissal > 0
                                          then ''+'' @ toString runsOnDismissal else ''''),
                     isLegalDelivery := True\<rparr>)
         | declareExtra extraType' extraRuns \<Rightarrow>
             ev\<lparr>ballRuns := 1 + extraRuns,
                display := (if extraRuns > 0 then toString extraRuns else '''')
                           @ (if extraType' = wide then ''wd'' else ''nb''),
                isLegalDelivery := False, extraType := Some extraType'\<rparr>
         | otherType \<Rightarrow> ev)"

text \<open>
  The guard of steps 1 and 4:
  \<open>ballNumberToEdit && ballNumberToEdit > 0 && ballNumberToEdit <= newRecentThisOver.length\<close>.
  An absent ball number (\<open>undefined\<close>) and \<open>0\<close> are falsy.
\<close>

definition isEdit :: "int option \<Rightarrow> BallEvent list \<Rightarrow> bool" where
  "isEdit ballNumberToEdit newRecentThisOver =
     (case ballNumberToEdit of
        None \<Rightarrow> False
      | Some k \<Rightarrow> k \<noteq> 0 \<and> k > 0 \<and> k \<le> int (length newRecentThisOver))"

text \<open>\<open>xs.filter(b => b.isLegalDelivery).length\<close>\<close>

definition legalCount :: "BallEvent list \<Rightarrow> nat" where
  "legalCount xs = length (filter isLegalDelivery xs)"

text \<open>Step 4 of \<open>recordDelivery\<close>: the array after the overwrite or the push.\<close>

definition updateRecent :: "int option \<Rightarrow> BallEvent \<Rightarrow> BallEvent list \<Rightarrow> BallEvent list" where
  "updateRecent ballNumberToEdit ev newRecentThisOver =
     (if isEdit ballNumberToEdit newRecentThisOver
      then newRecentThisOver[nat (the ballNumberToEdit - 1) := ev]
      else if legalCount newRecentThisOver < 6 then newRecentThisOver @ [ev]
      else newRecentThisOver)"

definition recordDelivery :: "delivery \<Rightarrow> int option \<Rightarrow> ScoreState \<Rightarrow> ScoreState" where
  "recordDelivery d ballNumberToEdit currentScore =
     (if inningsOver currentScore then currentScore
      else
        let newRecentThisOver = recentThisOver currentScore;
            \<comment> \<open>Step 1: an edit reverts the original ball's score.\<close>
            s1 = (if isEdit ballNumberToEdit newRecentThisOver
                  then
                    let originalBall = newRecentThisOver ! nat (the ballNumberToEdit - 1);
                        s = currentScore\<lparr>runs := runs currentScore - ballRuns originalBall\<rparr>
                    in if isWicket originalBall then s\<lparr>wickets := wickets s - 1\<rparr> else s
                  else currentScore);
            \<comment> \<open>Step 2\<close>
            ev = newBallEvent d;
            \<comment> \<open>Step 3: apply the new ball's score.\<close>
            s2 = s1\<lparr>runs := runs s1 + ballRuns ev\<rparr>;
            s3 = (if isWicket ev then s2\<lparr>wickets := wickets s2 + 1\<rparr> else s2);
            \<comment> \<open>Step 4\<close>
            s4 = s3\<lparr>recentThisOver := updateRecent ballNumberToEdit ev newRecentThisOver\<rparr>;
            \<comment> \<open>Step 5: recalculate overs and balls.\<close>
            legalDeliveries = legalCount (recentThisOver s4);
            s5 = (if legalDeliveries \<ge> 6
                  then s4\<lparr>overs := overs s4 + 1, balls := 0, recentThisOver := []\<rparr>
                  else s4\<lparr>balls := int legalDeliveries\<rparr>)
        in \<comment> \<open>Step 6: check for innings end.\<close>
           if wickets s5 \<ge> maxWickets s5 \<or> overs s5 \<ge> targetOvers s5
           then s5\<lparr>inningsOver := True\<rparr> else s5)"

definition clearLastDelivery :: "ScoreState \<Rightarrow> ScoreState" where
  "clearLastDelivery currentScore =
     (if inningsOver currentScore \<or> length (recentThisOver currentScore) = 0
      then currentScore
      else
        let lastBall = last (recentThisOver currentScore);
            newRecentThisOver = butlast (recentThisOver currentScore);
            s1 = currentScore\<lparr>runs := runs currentScore - ballRuns lastBall\<rparr>;
            s2 = (if isWicket lastBall then s1\<lparr>wickets := wickets s1 - 1\<rparr> else s1);
            s3 = s2\<lparr>recentThisOver := newRecentThisOver\<rparr>
        in s3\<lparr>balls := int (legalCount (recentThisOver s3))\<rparr>)"

definition handleGeminiFunctionCall :: "functionCall \<Rightarrow> ScoreState \<Rightarrow> ScoreState" where
  "handleGeminiFunctionCall fc s =
     (case fc of
        clearLastBall \<Rightarrow> clearLastDelivery s
      | deliveryCall d ballNumber \<Rightarrow> recordDelivery d ballNumber s)"

text \<open>
  The loop of \<open>onmessage\<close> over \<open>message.toolCall.functionCalls\<close>, and the sequence of
  messages: the calls are applied one after the other.
\<close>

fun applyCalls :: "functionCall list \<Rightarrow> ScoreState \<Rightarrow> ScoreState" where
  "applyCalls [] s = s"
| "applyCalls (fc # fcs) s = applyCalls fcs (handleGeminiFunctionCall fc s)"

text \<open>
  \<open>handleMaxWicketsChange\<close>: the argument is the result of \<open>parseInt\<close>, \<open>None\<close> for NaN.
\<close>

definition handleMaxWicketsChange :: "int option \<Rightarrow> ScoreState \<Rightarrow> ScoreState" where
  "handleMaxWicketsChange newMaxWickets prevScore =
     (case newMaxWickets of
        None \<Rightarrow> prevScore
      | Some n \<Rightarrow> if n > 0 then prevScore\<lparr>maxWickets := n\<rparr> else prevScore)"


definition resetInnings :: "ScoreState \<Rightarrow> ScoreState" where
  "resetInnings score = INITIAL_SCORE_STATE\<lparr>maxWickets := maxWickets score\<rparr>"

section \<open>Example states\<close>

text \<open>
  The over of the scenario \<open>addRuns(4)\<close>, \<open>declareWicket(0)\<close>, \<open>declareExtra(wide, 4)\<close>
  from the initial state, an over of five singles, and the innings ended by the first
  wicket when \<open>maxWickets\<close> is 1.
\<close>

abbreviation scenarioTwoBalls :: ScoreState where
  "scenarioTwoBalls \<equiv>
     applyCalls [deliveryCall (addRuns 4) None, deliveryCall (declareWicket (Some 0)) None]
       INITIAL_SCORE_STATE"

abbreviation scenarioOver :: ScoreState where
  "scenarioOver \<equiv> recordDelivery (declareExtra wide 4) None scenarioTwoBalls"

abbreviation fiveSingles :: ScoreState where
  "fiveSingles \<equiv>
     applyCalls [deliveryCall (addRuns 1) None, deliveryCall (addRuns 1) None,
                 deliveryCall (addRuns 1) None, deliveryCall (addRuns 1) None,
                 deliveryCall (addRuns 1) None] INITIAL_SCORE_STATE"

abbreviation fiveSinglesAndWide :: ScoreState where
  "fiveSinglesAndWide \<equiv> recordDelivery (declareExtra wide 0) None fiveSingles"

abbreviation oneWicketInnings :: ScoreState where
  "oneWicketInnings \<equiv> handleMaxWicketsChange (Some 1) INITIAL_SCORE_STATE"

abbreviation single :: BallEvent where
  "single \<equiv> newBallEvent (addRuns 1)"

abbreviation sixLegalBuffered :: ScoreState where
  "sixLegalBuffered \<equiv>
     INITIAL_SCORE_STATE\<lparr>recentThisOver := [single, single, single, single, single, single]\<rparr>"

lemmas eval_defs = recordDelivery_def clearLastDelivery_def handleGeminiFunctionCall_def
  updateRecent_def isEdit_def legalCount_def newBallEvent_def INITIAL_SCORE_STATE_def Let_def
  toString_def natToString.simps digitChar_def handleMaxWicketsChange_def

lemma single_eq:
  "single = \<lparr>display = ''1'', ballRuns = 1, isWicket = False, isLegalDelivery = True,
             extraType = None\<rparr>"
  by (simp add: eval_defs)

lemma scenarioTwoBalls_eq:
  "scenarioTwoBalls =
     \<lparr>runs = 4, wickets = 1, overs = 0, balls = 2,
      recentThisOver =
        [\<lparr>display = ''4'', ballRuns = 4, isWicket = False, isLegalDelivery = True,
          extraType = None\<rparr>,
         \<lparr>display = ''W'', ballRuns = 0, isWicket = True, isLegalDelivery = True,
          extraType = None\<rparr>],
      inningsOver = False, targetOvers = 20, maxWickets = 10\<rparr>"
  by (simp add: eval_defs)

lemma scenarioOver_eq:
  "scenarioOver =
     \<lparr>runs = 9, wickets = 1, overs = 0, balls = 2,
      recentThisOver =
        [\<lparr>display = ''4'', ballRuns = 4, isWicket = False, isLegalDelivery = True,
          extraType = None\<rparr>,
         \<lparr>display = ''W'', ballRuns = 0, isWicket = True, isLegalDelivery = True,
          extraType = None\<rparr>,
         \<lparr>display = ''4wd'', ballRuns = 5, isWicket = False, isLegalDelivery = False,
          extraType = Some wide\<rparr>],
      inningsOver = False, targetOvers = 20, maxWickets = 10\<rparr>"
  unfolding scenarioTwoBalls_eq by (simp add: eval_defs)

lemma fiveSingles_eq:
  "fiveSingles =
     \<lparr>runs = 5, wickets = 0, overs = 0, balls = 5,
      recentThisOver = [single, single, single, single, single],
      inningsOver = False, targetOvers = 20, maxWickets = 10\<rparr>"
  unfolding single_eq by (simp add: eval_defs)

lemma fiveSinglesAndWide_eq:
  "fiveSinglesAndWide =
     \<lparr>runs = 6, wickets = 0, overs = 0, balls = 5,
      recentThisOver = [single, single, single, single, single,
                        \<lparr>display = ''wd'', ballRuns = 1, isWicket = False,
                         isLegalDelivery = False, extraType = Some wide\<rparr>],
      inningsOver = False, targetOvers = 20, maxWickets = 10\<rparr>"
  unfolding fiveSingles_eq single_eq by (simp add: eval_defs)

section \<open>Terminal states\<close>

lemma applyCalls_append:
  "applyCalls (xs @ ys) s = applyCalls ys (applyCalls xs s)"
  by (induction xs arbitrary: s) simp_all

text \<open>
  C4. In a state with \<open>inningsOver\<close> set, every delivery call (with or without a ball
  number) and \<open>clearLastBall\<close> return the state as it is, and so does every sequence of
  such calls: runs, wickets, overs and the deliveries of the over do not change any more.
\<close>

theorem innings_over_is_terminal:
  assumes "inningsOver s"
  shows "recordDelivery d bn s = s \<and> clearLastDelivery s = s \<and> applyCalls fcs s = s"
proof -
  have r: "recordDelivery d' bn' s = s" for d' bn'
    using assms by (simp add: recordDelivery_def)
  have c: "clearLastDelivery s = s"
    using assms by (simp add: clearLastDelivery_def)
  have h: "handleGeminiFunctionCall fc s = s" for fc
    by (cases fc) (simp_all add: handleGeminiFunctionCall_def r c)
  have "applyCalls fcs s = s"
    by (induction fcs) (simp_all add: h)
  with r c show ?thesis by simp
qed

theorem innings_over_is_terminal_witness:
  "inningsOver (recordDelivery (declareWicket (Some 0)) None oneWicketInnings)
   \<and> recordDelivery (addRuns 6) None
        (recordDelivery (declareWicket (Some 0)) None oneWicketInnings)
       = recordDelivery (declareWicket (Some 0)) None oneWicketInnings
   \<and> clearLastDelivery (recordDelivery (declareWicket (Some 0)) None oneWicketInnings)
       = recordDelivery (declareWicket (Some 0)) None oneWicketInnings
   \<and> applyCalls [deliveryCall (addRuns 6) None, clearLastBall,
                 deliveryCall (declareExtra wide 0) (Some 1)]
        (recordDelivery (declareWicket (Some 0)) None oneWicketInnings)
       = recordDelivery (declareWicket (Some 0)) None oneWicketInnings"
proof -
  have h: "inningsOver (recordDelivery (declareWicket (Some 0)) None oneWicketInnings)"
    by (simp add: eval_defs)
  from innings_over_is_terminal [OF h] h show ?thesis by simp
qed

section \<open>The count of legal deliveries\<close>

lemma legalCount_butlast: "legalCount (butlast xs) \<le> legalCount xs"
  by (induction xs) (simp_all add: legalCount_def)

lemma recordDelivery_inv:
  assumes "balls s = int (legalCount (recentThisOver s)) \<and> legalCount (recentThisOver s) \<le> 5"
  shows "balls (recordDelivery d bn s) = int (legalCount (recentThisOver (recordDelivery d bn s)))
       \<and> legalCount (recentThisOver (recordDelivery d bn s)) \<le> 5"
  using assms by (auto simp: recordDelivery_def Let_def legalCount_def)

lemma clearLastDelivery_inv:
  assumes "balls s = int (legalCount (recentThisOver s)) \<and> legalCount (recentThisOver s) \<le> 5"
  shows "balls (clearLastDelivery s) = int (legalCount (recentThisOver (clearLastDelivery s)))
       \<and> legalCount (recentThisOver (clearLastDelivery s)) \<le> 5"
  using assms legalCount_butlast [of "recentThisOver s"]
  by (auto simp: clearLastDelivery_def Let_def)

lemma applyCalls_inv:
  assumes "balls s = int (legalCount (recentThisOver s)) \<and> legalCount (recentThisOver s) \<le> 5"
  shows "balls (applyCalls fcs s) = int (legalCount (recentThisOver (applyCalls fcs s)))
       \<and> legalCount (recentThisOver (applyCalls fcs s)) \<le> 5"
  using assms
proof (induction fcs arbitrary: s)
  case Nil
  then show ?case by simp
next
  case (Cons fc fcs)
  have "balls (handleGeminiFunctionCall fc s)
          = int (legalCount (recentThisOver (handleGeminiFunctionCall fc s)))
        \<and> legalCount (recentThisOver (handleGeminiFunctionCall fc s)) \<le> 5"
    using Cons.prems recordDelivery_inv clearLastDelivery_inv
    by (cases fc) (simp_all add: handleGeminiFunctionCall_def)
  then show ?case using Cons.IH by simp
qed

text \<open>
  C9. In every state reached from \<open>INITIAL_SCORE_STATE\<close> by a sequence of delivery calls
  (appends and edits) and \<open>clearLastBall\<close>, \<open>balls\<close> is the number of legal deliveries in
  \<open>recentThisOver\<close>, that number is at most 5, so \<open>balls\<close> lies in [0,6), and a delivery
  without a ball number is pushed: the branch that drops it is not taken.
\<close>

theorem reachable_balls_is_legal_count:
  "balls (applyCalls fcs INITIAL_SCORE_STATE)
     = int (legalCount (recentThisOver (applyCalls fcs INITIAL_SCORE_STATE)))
   \<and> legalCount (recentThisOver (applyCalls fcs INITIAL_SCORE_STATE)) \<le> 5
   \<and> 0 \<le> balls (applyCalls fcs INITIAL_SCORE_STATE)
   \<and> balls (applyCalls fcs INITIAL_SCORE_STATE) < 6
   \<and> updateRecent None ev (recentThisOver (applyCalls fcs INITIAL_SCORE_STATE))
       = recentThisOver (applyCalls fcs INITIAL_SCORE_STATE) @ [ev]"
proof -
  have "balls INITIAL_SCORE_STATE = int (legalCount (recentThisOver INITIAL_SCORE_STATE))
        \<and> legalCount (recentThisOver INITIAL_SCORE_STATE) \<le> 5"
    by (simp add: INITIAL_SCORE_STATE_def legalCount_def)
  from applyCalls_inv [OF this, of fcs] show ?thesis
    by (simp add: updateRecent_def isEdit_def)
qed

theorem reachable_balls_is_legal_count_witness:
  "balls scenarioOver = int (legalCount (recentThisOver scenarioOver))
   \<and> balls scenarioOver = 2
   \<and> updateRecent None single (recentThisOver scenarioOver)
       = recentThisOver scenarioOver @ [single]"
proof -
  have a: "applyCalls [deliveryCall (addRuns 4) None, deliveryCall (declareWicket (Some 0)) None,
                       deliveryCall (declareExtra wide 4) None] INITIAL_SCORE_STATE
             = scenarioOver"
    by (simp add: handleGeminiFunctionCall_def)
  have b: "balls scenarioOver = 2"
    unfolding scenarioOver_eq by simp
  from reachable_balls_is_legal_count
         [of "[deliveryCall (addRuns 4) None, deliveryCall (declareWicket (Some 0)) None,
               deliveryCall (declareExtra wide 4) None]" single]
  show ?thesis
    unfolding a using b by simp
qed

section \<open>Classification of a function call\<close>

lemma lt_10_cases:
  "d < 10 \<Longrightarrow>
   d = 0 \<or> d = 1 \<or> d = 2 \<or> d = 3 \<or> d = 4 \<or> d = 5 \<or> d = 6 \<or> d = 7 \<or> d = 8 \<or> d = (9::nat)"
  by arith

lemma digitValue_digitChar: "d < 10 \<Longrightarrow> digitValue (digitChar d) = d"
  by (drule lt_10_cases) (auto simp: digitValue_def digitChar_def)

lemma digitChar_is_digit: "d < 10 \<Longrightarrow> digitChar d \<in> set ''0123456789''"
  by (drule lt_10_cases) (auto simp: digitChar_def)

lemma decimalValue_snoc: "decimalValue (cs @ [c]) = 10 * decimalValue cs + digitValue c"
  by (simp add: decimalValue_def)

lemma decimalValue_natToString: "decimalValue (natToString n) = n"
proof (induction n rule: natToString.induct)
  case (1 n)
  show ?case
  proof (cases "n < 10")
    case True
    then show ?thesis
      by (subst natToString.simps) (simp add: decimalValue_def digitValue_digitChar)
  next
    case False
    then have "decimalValue (natToString (n div 10)) = n div 10"
      using "1.IH" by simp
    then show ?thesis
      using False
      by (subst natToString.simps) (simp add: decimalValue_snoc digitValue_digitChar)
  qed
qed

lemma natToString_digits: "set (natToString n) \<subseteq> set ''0123456789''"
proof (induction n rule: natToString.induct)
  case (1 n)
  show ?case
  proof (cases "n < 10")
    case True
    then show ?thesis
      using digitChar_is_digit [of n] by (subst natToString.simps) simp
  next
    case False
    then have "set (natToString (n div 10)) \<subseteq> set ''0123456789''"
      using "1.IH" by simp
    moreover have "digitChar (n mod 10) \<in> set ''0123456789''"
      by (rule digitChar_is_digit) simp
    ultimately show ?thesis
      using False by (subst natToString.simps) simp
  qed
qed

lemma digitChar_zero: "d < 10 \<Longrightarrow> (digitChar d = CHR ''0'') = (d = 0)"
  by (drule lt_10_cases) (auto simp: digitChar_def)

lemma natToString_nonempty: "natToString n \<noteq> []"
  by (subst natToString.simps) simp

lemma natToString_no_leading_zero: "hd (natToString n) = CHR ''0'' \<Longrightarrow> n = 0"
proof (induction n rule: natToString.induct)
  case (1 n)
  show ?case
  proof (cases "n < 10")
    case True
    then have "natToString n = [digitChar n]"
      by (subst natToString.simps) simp
    with "1.prems" True show ?thesis
      by (simp add: digitChar_zero)
  next
    case False
    then have "natToString n = natToString (n div 10) @ [digitChar (n mod 10)]"
      by (subst natToString.simps) simp
    with "1.prems" have "hd (natToString (n div 10)) = CHR ''0''"
      by (simp add: natToString_nonempty)
    with "1.IH" False have "n div 10 = 0"
      by simp
    with False show ?thesis
      by simp
  qed
qed

lemma toString_digit: "0 \<le> r \<Longrightarrow> r < 10 \<Longrightarrow> toString r = [digitChar (nat r)]"
  by (simp add: toString_def natToString.simps)

text \<open>
  C2. The \<open>BallEvent\<close> built from a function call follows the mapping table, for runs that
  are not negative (the tool declarations ask for 0 to 6). \<open>addRuns(r)\<close>: runs \<open>r\<close>, no
  wicket, legal, label the decimal string of \<open>r\<close>: digits only, not empty, without a
  leading zero except for the string \<open>0\<close> itself, and reading back as \<open>r\<close>.
  \<open>declareWicket(d)\<close>: runs \<open>d\<close>, and 0 when \<open>runsOnDismissal\<close> is absent, wicket, legal,
  label \<open>W\<close> when \<open>d = 0\<close> and \<open>W+d\<close> otherwise. \<open>declareExtra(kind, r)\<close>: runs \<open>1 + r\<close>,
  no wicket, not legal, \<open>extraType = kind\<close>, label the runs (left out when \<open>r = 0\<close>)
  followed by \<open>wd\<close> for a wide and \<open>nb\<close> for a no-ball. On the runs 0 to 6 the labels
  are listed one by one.
\<close>

theorem newBallEvent_mapping_table:
  assumes "0 \<le> r" and "0 \<le> dr" and "0 \<le> er"
  shows "newBallEvent (addRuns r)
           = \<lparr>display = toString r, ballRuns = r, isWicket = False,
              isLegalDelivery = True, extraType = None\<rparr>
       \<and> decimalValue (toString r) = nat r
       \<and> set (toString r) \<subseteq> set ''0123456789''
       \<and> toString r \<noteq> []
       \<and> (hd (toString r) = CHR ''0'' \<longrightarrow> toString r = ''0'')
       \<and> newBallEvent (declareWicket (Some dr))
           = \<lparr>display = (if dr = 0 then ''W'' else ''W+'' @ toString dr), ballRuns = dr,
              isWicket = True, isLegalDelivery = True, extraType = None\<rparr>
       \<and> newBallEvent (declareWicket None)
           = \<lparr>display = ''W'', ballRuns = 0, isWicket = True, isLegalDelivery = True,
              extraType = None\<rparr>
       \<and> newBallEvent (declareExtra kind er)
           = \<lparr>display = (if er = 0 then '''' else toString er)
                        @ (case kind of wide \<Rightarrow> ''wd'' | no_ball \<Rightarrow> ''nb''),
              ballRuns = 1 + er, isWicket = False, isLegalDelivery = False,
              extraType = Some kind\<rparr>
       \<and> map (\<lambda>n. display (newBallEvent (addRuns n))) [0, 1, 2, 3, 4, 5, 6]
           = [''0'', ''1'', ''2'', ''3'', ''4'', ''5'', ''6'']
       \<and> map (\<lambda>n. display (newBallEvent (declareWicket (Some n)))) [0, 1, 2, 3, 4, 5, 6]
           = [''W'', ''W+1'', ''W+2'', ''W+3'', ''W+4'', ''W+5'', ''W+6'']
       \<and> map (\<lambda>n. display (newBallEvent (declareExtra wide n))) [0, 1, 2, 3, 4, 5, 6]
           = [''wd'', ''1wd'', ''2wd'', ''3wd'', ''4wd'', ''5wd'', ''6wd'']
       \<and> map (\<lambda>n. display (newBallEvent (declareExtra no_ball n))) [0, 1, 2, 3, 4, 5, 6]
           = [''nb'', ''1nb'', ''2nb'', ''3nb'', ''4nb'', ''5nb'', ''6nb'']"
proof -
  have a: "newBallEvent (addRuns r)
           = \<lparr>display = toString r, ballRuns = r, isWicket = False,
              isLegalDelivery = True, extraType = None\<rparr>"
    by (simp add: newBallEvent_def)
  have b: "decimalValue (toString r) = nat r \<and> set (toString r) \<subseteq> set ''0123456789''"
    using assms(1) decimalValue_natToString [of "nat r"] natToString_digits [of "nat r"]
    by (simp add: toString_def)
  have n: "toString r \<noteq> []"
    using assms(1) by (simp add: toString_def natToString_nonempty)
  have z: "hd (toString r) = CHR ''0'' \<longrightarrow> toString r = ''0''"
  proof
    assume "hd (toString r) = CHR ''0''"
    then have "hd (natToString (nat r)) = CHR ''0''"
      using assms(1) by (simp add: toString_def)
    then have "nat r = 0"
      by (rule natToString_no_leading_zero)
    then show "toString r = ''0''"
      using assms(1) by (simp add: toString_def natToString.simps digitChar_def)
  qed
  have c: "newBallEvent (declareWicket (Some dr))
           = \<lparr>display = (if dr = 0 then ''W'' else ''W+'' @ toString dr), ballRuns = dr,
              isWicket = True, isLegalDelivery = True, extraType = None\<rparr>"
    using assms(2) by (simp add: newBallEvent_def)
  have d: "newBallEvent (declareWicket None)
           = \<lparr>display = ''W'', ballRuns = 0, isWicket = True, isLegalDelivery = True,
              extraType = None\<rparr>"
    by (simp add: newBallEvent_def)
  have e: "newBallEvent (declareExtra kind er)
           = \<lparr>display = (if er = 0 then '''' else toString er)
                        @ (case kind of wide \<Rightarrow> ''wd'' | no_ball \<Rightarrow> ''nb''),
              ballRuns = 1 + er, isWicket = False, isLegalDelivery = False,
              extraType = Some kind\<rparr>"
    using assms(3) by (cases kind) (simp_all add: newBallEvent_def)
  have t: "toString 0 = ''0''" "toString 1 = ''1''" "toString 2 = ''2''" "toString 3 = ''3''"
    "toString 4 = ''4''" "toString 5 = ''5''" "toString 6 = ''6''"
    by (simp_all add: toString_digit digitChar_def)
  have l1: "map (\<lambda>n. display (newBallEvent (addRuns n))) [0, 1, 2, 3, 4, 5, 6]
           = [''0'', ''1'', ''2'', ''3'', ''4'', ''5'', ''6'']"
    by (simp add: newBallEvent_def t)
  have l2: "map (\<lambda>n. display (newBallEvent (declareWicket (Some n)))) [0, 1, 2, 3, 4, 5, 6]
           = [''W'', ''W+1'', ''W+2'', ''W+3'', ''W+4'', ''W+5'', ''W+6'']"
    by (simp add: newBallEvent_def t)
  have l3: "map (\<lambda>n. display (newBallEvent (declareExtra wide n))) [0, 1, 2, 3, 4, 5, 6]
           = [''wd'', ''1wd'', ''2wd'', ''3wd'', ''4wd'', ''5wd'', ''6wd'']"
    by (simp add: newBallEvent_def t)
  have l4: "map (\<lambda>n. display (newBallEvent (declareExtra no_ball n))) [0, 1, 2, 3, 4, 5, 6]
           = [''nb'', ''1nb'', ''2nb'', ''3nb'', ''4nb'', ''5nb'', ''6nb'']"
    by (simp add: newBallEvent_def t)
  from a b n z c d e l1 l2 l3 l4 show ?thesis by blast
qed

theorem newBallEvent_mapping_table_witness:
  "(0::int) \<le> 4 \<and> (0::int) \<le> 1 \<and> (0::int) \<le> 2
   \<and> newBallEvent (addRuns 4)
       = \<lparr>display = ''4'', ballRuns = 4, isWicket = False, isLegalDelivery = True,
          extraType = None\<rparr>
   \<and> decimalValue ''4'' = 4
   \<and> newBallEvent (declareWicket (Some 1))
       = \<lparr>display = ''W+1'', ballRuns = 1, isWicket = True, isLegalDelivery = True,
          extraType = None\<rparr>
   \<and> newBallEvent (declareExtra wide 2)
       = \<lparr>display = ''2wd'', ballRuns = 3, isWicket = False, isLegalDelivery = False,
          extraType = Some wide\<rparr>
   \<and> display (newBallEvent (addRuns 0)) = ''0''
   \<and> hd (toString 0) = CHR ''0'' \<and> toString 0 = ''0''"
proof -
  have h: "(0::int) \<le> 4" "(0::int) \<le> 1" "(0::int) \<le> 2"
    by simp_all
  have t: "toString 4 = ''4''" "toString 1 = ''1''" "toString 2 = ''2''"
    by (simp_all add: toString_digit digitChar_def)
  from newBallEvent_mapping_table [OF h, of wide]
  have g: "newBallEvent (addRuns 4)
             = \<lparr>display = toString 4, ballRuns = 4, isWicket = False,
                isLegalDelivery = True, extraType = None\<rparr>
           \<and> decimalValue (toString 4) = nat 4
           \<and> newBallEvent (declareWicket (Some 1))
             = \<lparr>display = (if (1::int) = 0 then ''W'' else ''W+'' @ toString 1), ballRuns = 1,
                isWicket = True, isLegalDelivery = True, extraType = None\<rparr>
           \<and> newBallEvent (declareExtra wide 2)
             = \<lparr>display = (if (2::int) = 0 then '''' else toString 2)
                          @ (case wide of wide \<Rightarrow> ''wd'' | no_ball \<Rightarrow> ''nb''),
                ballRuns = 1 + 2, isWicket = False, isLegalDelivery = False,
                extraType = Some wide\<rparr>
           \<and> map (\<lambda>n. display (newBallEvent (addRuns n))) [0, 1, 2, 3, 4, 5, 6]
               = [''0'', ''1'', ''2'', ''3'', ''4'', ''5'', ''6'']"
    by blast
  then have z: "display (newBallEvent (addRuns 0)) = ''0''"
    by simp
  from g have a: "newBallEvent (addRuns 4)
             = \<lparr>display = ''4'', ballRuns = 4, isWicket = False,
                isLegalDelivery = True, extraType = None\<rparr>"
    by (simp add: t)
  from g have b: "decimalValue ''4'' = 4"
    by (simp add: t)
  from g have c: "newBallEvent (declareWicket (Some 1))
       = \<lparr>display = ''W+1'', ballRuns = 1, isWicket = True, isLegalDelivery = True,
          extraType = None\<rparr>"
    by (simp add: t)
  from g have d: "newBallEvent (declareExtra wide 2)
       = \<lparr>display = ''2wd'', ballRuns = 3, isWicket = False, isLegalDelivery = False,
          extraType = Some wide\<rparr>"
    by (simp add: t)
  have h0: "(0::int) \<le> 0"
    by simp
  from newBallEvent_mapping_table [OF h0 h0 h0, of wide]
  have i: "hd (toString 0) = CHR ''0'' \<longrightarrow> toString 0 = ''0''"
    by blast
  have k: "hd (toString 0) = CHR ''0''"
    by (simp add: toString_digit digitChar_def)
  with i have l: "toString 0 = ''0''"
    by blast
  from h a b c d z k l show ?thesis by blast
qed

section \<open>Edits\<close>

text \<open>
  C1, as stated, fails. After five singles and a wide, editing ball 6 (the wide) into a
  single makes the sixth legal delivery of the over: the state is not terminal, ball 6
  is recorded, and the edit changes \<open>overs\<close> from 0 to 1.
\<close>

theorem edit_completes_over_counterexample:
  "\<not> inningsOver fiveSinglesAndWide
   \<and> (1::int) \<le> 6 \<and> 6 \<le> int (length (recentThisOver fiveSinglesAndWide))
   \<and> overs fiveSinglesAndWide = 0
   \<and> overs (recordDelivery (addRuns 1) (Some 6) fiveSinglesAndWide) = 1
   \<and> overs (recordDelivery (addRuns 1) (Some 6) fiveSinglesAndWide)
       \<noteq> overs fiveSinglesAndWide"
  unfolding fiveSinglesAndWide_eq single_eq by (simp add: eval_defs)

text \<open>
  C1, amended. In a state that is not terminal, an edit of ball \<open>k\<close>,
  \<open>1 \<le> k \<le> length recentThisOver\<close>, from its recorded outcome A to the new outcome B
  changes \<open>runs\<close> by the runs of B minus the runs of A and \<open>wickets\<close> by (1 if B is a
  wicket, else 0) minus (1 if A is a wicket, else 0). \<open>overs\<close> is unchanged, and ball \<open>k\<close>
  overwritten, when the over then holds fewer than 6 legal deliveries; otherwise the
  over is complete: \<open>overs\<close> grows by 1 and \<open>recentThisOver\<close> is emptied.
\<close>

theorem edit_net_effect:
  assumes "\<not> inningsOver s" and "1 \<le> k" and "k \<le> int (length (recentThisOver s))"
  shows "runs (recordDelivery d (Some k) s)
           = runs s + (ballRuns (newBallEvent d) - ballRuns (recentThisOver s ! nat (k - 1)))
       \<and> wickets (recordDelivery d (Some k) s)
           = wickets s + ((if isWicket (newBallEvent d) then 1 else 0)
                          - (if isWicket (recentThisOver s ! nat (k - 1)) then 1 else 0))
       \<and> recentThisOver (recordDelivery d (Some k) s)
           = (if legalCount ((recentThisOver s)[nat (k - 1) := newBallEvent d]) < 6
              then (recentThisOver s)[nat (k - 1) := newBallEvent d] else [])
       \<and> overs (recordDelivery d (Some k) s)
           = (if legalCount ((recentThisOver s)[nat (k - 1) := newBallEvent d]) < 6
              then overs s else overs s + 1)"
proof -
  have e: "isEdit (Some k) (recentThisOver s)"
    using assms by (simp add: isEdit_def)
  show ?thesis
    using assms(1) e by (simp add: recordDelivery_def updateRecent_def Let_def)
qed

theorem edit_net_effect_witness:
  "\<not> inningsOver scenarioOver
   \<and> (1::int) \<le> 2 \<and> 2 \<le> int (length (recentThisOver scenarioOver))
   \<and> runs scenarioOver = 9 \<and> wickets scenarioOver = 1
   \<and> runs (recordDelivery (addRuns 2) (Some 2) scenarioOver) = 11
   \<and> wickets (recordDelivery (addRuns 2) (Some 2) scenarioOver) = 0
   \<and> overs (recordDelivery (addRuns 2) (Some 2) scenarioOver) = overs scenarioOver
   \<and> map display (recentThisOver (recordDelivery (addRuns 2) (Some 2) scenarioOver))
       = [''4'', ''2'', ''4wd'']"
  using edit_net_effect [of scenarioOver 2 "addRuns 2"]
  unfolding scenarioOver_eq
  by (simp add: legalCount_def newBallEvent_def toString_def natToString.simps digitChar_def)



section \<open>Completion of an over\<close>

text \<open>
  C3. In a state that is not terminal, when the deliveries of the over after step 4 of a
  delivery call hold 6 legal deliveries, the resulting state has \<open>overs\<close> one higher,
  \<open>recentThisOver\<close> empty and \<open>balls = 0\<close>. Six \<open>addRuns(1)\<close> in a row from the initial
  state give \<open>overs = 1\<close>, \<open>recentThisOver = []\<close>, \<open>balls = 0\<close> and \<open>runs = 6\<close>.
\<close>

theorem over_rollover:
  assumes "\<not> inningsOver s"
    and "6 \<le> legalCount (updateRecent bn (newBallEvent d) (recentThisOver s))"
  shows "overs (recordDelivery d bn s) = overs s + 1
       \<and> recentThisOver (recordDelivery d bn s) = []
       \<and> balls (recordDelivery d bn s) = 0
       \<and> overs (applyCalls (replicate 6 (deliveryCall (addRuns 1) None)) INITIAL_SCORE_STATE) = 1
       \<and> recentThisOver
           (applyCalls (replicate 6 (deliveryCall (addRuns 1) None)) INITIAL_SCORE_STATE) = []
       \<and> balls (applyCalls (replicate 6 (deliveryCall (addRuns 1) None)) INITIAL_SCORE_STATE) = 0
       \<and> runs (applyCalls (replicate 6 (deliveryCall (addRuns 1) None)) INITIAL_SCORE_STATE) = 6"
proof -
  have six: "replicate 6 x = [x, x, x, x, x] @ [x]" for x :: functionCall
    by (simp add: numeral_eq_Suc)
  have gen: "overs (recordDelivery d bn s) = overs s + 1
       \<and> recentThisOver (recordDelivery d bn s) = []
       \<and> balls (recordDelivery d bn s) = 0"
    using assms by (simp add: recordDelivery_def Let_def)
  have sc: "applyCalls (replicate 6 (deliveryCall (addRuns 1) None)) INITIAL_SCORE_STATE
      = \<lparr>runs = 6, wickets = 0, overs = 1, balls = 0, recentThisOver = [],
          inningsOver = False, targetOvers = 20, maxWickets = 10\<rparr>"
    unfolding six applyCalls_append fiveSingles_eq single_eq by (simp add: eval_defs)
  show ?thesis using gen by (simp add: sc)
qed

theorem over_rollover_witness:
  "\<not> inningsOver fiveSingles
   \<and> 6 \<le> legalCount (updateRecent None (newBallEvent (declareWicket (Some 1)))
                       (recentThisOver fiveSingles))
   \<and> overs fiveSingles = 0
   \<and> overs (recordDelivery (declareWicket (Some 1)) None fiveSingles) = 1
   \<and> recentThisOver (recordDelivery (declareWicket (Some 1)) None fiveSingles) = []
   \<and> balls (recordDelivery (declareWicket (Some 1)) None fiveSingles) = 0"
proof -
  have h: "\<not> inningsOver fiveSingles"
    unfolding fiveSingles_eq by simp
  have c: "6 \<le> legalCount (updateRecent None (newBallEvent (declareWicket (Some 1)))
                             (recentThisOver fiveSingles))"
    unfolding fiveSingles_eq single_eq
    by (simp add: updateRecent_def isEdit_def legalCount_def newBallEvent_def)
  have o: "overs fiveSingles = 0"
    unfolding fiveSingles_eq by simp
  from over_rollover [OF h c] h c o show ?thesis by simp
qed

text \<open>
  C6. In a state that is not terminal and whose \<open>recentThisOver\<close> already holds 6 legal
  deliveries, a delivery call without a valid ball number leaves the array of step 4 as
  it was: the new outcome is not pushed, and it is not in the resulting over. Its runs
  are added to \<open>runs\<close> all the same and, when it is a wicket, \<open>wickets\<close> grows by 1.
\<close>

theorem seventh_ball_dropped_but_scored:
  assumes "\<not> inningsOver s" and "\<not> isEdit bn (recentThisOver s)"
    and "6 \<le> legalCount (recentThisOver s)"
  shows "updateRecent bn (newBallEvent d) (recentThisOver s) = recentThisOver s
       \<and> newBallEvent d \<notin> set (recentThisOver (recordDelivery d bn s))
       \<and> runs (recordDelivery d bn s) = runs s + ballRuns (newBallEvent d)
       \<and> wickets (recordDelivery d bn s)
           = wickets s + (if isWicket (newBallEvent d) then 1 else 0)"
  using assms by (simp add: recordDelivery_def updateRecent_def Let_def)

theorem seventh_ball_dropped_but_scored_witness:
  "\<not> inningsOver sixLegalBuffered
   \<and> \<not> isEdit None (recentThisOver sixLegalBuffered)
   \<and> 6 \<le> legalCount (recentThisOver sixLegalBuffered)
   \<and> runs sixLegalBuffered = 0 \<and> wickets sixLegalBuffered = 0
   \<and> runs (recordDelivery (declareWicket (Some 2)) None sixLegalBuffered) = 2
   \<and> wickets (recordDelivery (declareWicket (Some 2)) None sixLegalBuffered) = 1
   \<and> recentThisOver (recordDelivery (declareWicket (Some 2)) None sixLegalBuffered) = []"
proof -
  have h: "\<not> inningsOver sixLegalBuffered" "\<not> isEdit None (recentThisOver sixLegalBuffered)"
    by (simp_all add: INITIAL_SCORE_STATE_def isEdit_def)
  have c: "6 \<le> legalCount (recentThisOver sixLegalBuffered)"
    unfolding single_eq by (simp add: INITIAL_SCORE_STATE_def legalCount_def)
  have z: "runs sixLegalBuffered = 0 \<and> wickets sixLegalBuffered = 0"
    by (simp add: INITIAL_SCORE_STATE_def)
  have e: "recentThisOver (recordDelivery (declareWicket (Some 2)) None sixLegalBuffered) = []"
    unfolding single_eq by (simp add: eval_defs)
  from seventh_ball_dropped_but_scored [OF h c, of "declareWicket (Some 2)"] h c z e
  show ?thesis by (simp add: newBallEvent_def)
qed

section \<open>Clearing the last ball\<close>

text \<open>
  C5, as stated, fails. With \<open>maxWickets = 1\<close>, a wicket on the first ball is pushed and
  completes no over, but it ends the innings, and \<open>clearLastDelivery\<close> returns a
  terminal state as it is: the wicket and the ball stay.
\<close>

theorem clear_after_last_wicket_counterexample:
  "\<not> inningsOver oneWicketInnings
   \<and> recentThisOver (recordDelivery (declareWicket (Some 0)) None oneWicketInnings)
       = recentThisOver oneWicketInnings @ [newBallEvent (declareWicket (Some 0))]
   \<and> overs (recordDelivery (declareWicket (Some 0)) None oneWicketInnings)
       = overs oneWicketInnings
   \<and> wickets oneWicketInnings = 0
   \<and> wickets (clearLastDelivery (recordDelivery (declareWicket (Some 0)) None oneWicketInnings))
       = 1
   \<and> recentThisOver
       (clearLastDelivery (recordDelivery (declareWicket (Some 0)) None oneWicketInnings))
       \<noteq> recentThisOver oneWicketInnings"
  by (simp add: eval_defs)

text \<open>
  C5, amended. Take a state \<open>s\<close> that is not terminal and whose \<open>balls\<close> is the number of
  legal deliveries in its \<open>recentThisOver\<close> (as in every reachable state). If a delivery
  call without a valid ball number pushes its outcome, completes no over and does not
  end the innings, then \<open>clearLastDelivery\<close> on the resulting state gives back the
  \<open>runs\<close>, \<open>wickets\<close>, \<open>recentThisOver\<close> and \<open>balls\<close> of \<open>s\<close>.
\<close>

theorem clear_undoes_append:
  assumes "\<not> inningsOver s"
    and "balls s = int (legalCount (recentThisOver s))"
    and "\<not> isEdit bn (recentThisOver s)"
    and "legalCount (recentThisOver s) < 6"
    and "legalCount (recentThisOver s @ [newBallEvent d]) < 6"
    and "\<not> inningsOver (recordDelivery d bn s)"
  shows "recentThisOver (recordDelivery d bn s) = recentThisOver s @ [newBallEvent d]
       \<and> runs (clearLastDelivery (recordDelivery d bn s)) = runs s
       \<and> wickets (clearLastDelivery (recordDelivery d bn s)) = wickets s
       \<and> recentThisOver (clearLastDelivery (recordDelivery d bn s)) = recentThisOver s
       \<and> balls (clearLastDelivery (recordDelivery d bn s)) = balls s"
proof -
  have r: "recentThisOver (recordDelivery d bn s) = recentThisOver s @ [newBallEvent d]"
    using assms(1,3,4,5) by (simp add: recordDelivery_def updateRecent_def Let_def)
  have ru: "runs (recordDelivery d bn s) = runs s + ballRuns (newBallEvent d)"
    using assms(1,3) by (simp add: recordDelivery_def Let_def)
  have wi: "wickets (recordDelivery d bn s)
              = wickets s + (if isWicket (newBallEvent d) then 1 else 0)"
    using assms(1,3) by (simp add: recordDelivery_def Let_def)
  show ?thesis
    using assms(2,6) r ru wi by (simp add: clearLastDelivery_def Let_def)
qed

theorem clear_undoes_append_witness:
  "\<not> inningsOver scenarioTwoBalls
   \<and> balls scenarioTwoBalls = int (legalCount (recentThisOver scenarioTwoBalls))
   \<and> \<not> isEdit None (recentThisOver scenarioTwoBalls)
   \<and> legalCount (recentThisOver scenarioTwoBalls) < 6
   \<and> legalCount (recentThisOver scenarioTwoBalls @ [newBallEvent (declareExtra wide 4)]) < 6
   \<and> \<not> inningsOver scenarioOver
   \<and> runs scenarioOver = 9
   \<and> runs (clearLastDelivery scenarioOver) = 4
   \<and> wickets (clearLastDelivery scenarioOver) = 1
   \<and> recentThisOver (clearLastDelivery scenarioOver) = recentThisOver scenarioTwoBalls
   \<and> balls (clearLastDelivery scenarioOver) = 2"
proof -
  have h1: "\<not> inningsOver scenarioTwoBalls"
    unfolding scenarioTwoBalls_eq by simp
  have h2: "balls scenarioTwoBalls = int (legalCount (recentThisOver scenarioTwoBalls))"
    unfolding scenarioTwoBalls_eq by (simp add: legalCount_def)
  have h3: "\<not> isEdit None (recentThisOver scenarioTwoBalls)"
    by (simp add: isEdit_def)
  have h4: "legalCount (recentThisOver scenarioTwoBalls) < 6"
    unfolding scenarioTwoBalls_eq by (simp add: legalCount_def)
  have h5: "legalCount (recentThisOver scenarioTwoBalls @ [newBallEvent (declareExtra wide 4)])
              < 6"
    unfolding scenarioTwoBalls_eq by (simp add: legalCount_def newBallEvent_def)
  have h6: "\<not> inningsOver scenarioOver"
    unfolding scenarioOver_eq by simp
  have v: "runs scenarioTwoBalls = 4 \<and> wickets scenarioTwoBalls = 1
           \<and> balls scenarioTwoBalls = 2"
    unfolding scenarioTwoBalls_eq by simp
  have w: "runs scenarioOver = 9"
    unfolding scenarioOver_eq by simp
  from clear_undoes_append [OF h1 h2 h3 h4 h5 h6] h1 h2 h3 h4 h5 h6 v w
  show ?thesis by simp
qed

section \<open>Extras\<close>

lemma extra_step:
  assumes "\<not> inningsOver s" and "wickets s < maxWickets s" and "overs s < targetOvers s"
    and "legalCount (recentThisOver s) = 0"
  shows "recordDelivery (declareExtra k r) None s
           = s\<lparr>runs := runs s + (1 + r),
               recentThisOver := recentThisOver s @ [newBallEvent (declareExtra k r)],
               balls := 0\<rparr>"
proof -
  have ev: "\<not> isWicket (newBallEvent (declareExtra k r))
            \<and> \<not> isLegalDelivery (newBallEvent (declareExtra k r))
            \<and> ballRuns (newBallEvent (declareExtra k r)) = 1 + r"
    by (simp add: newBallEvent_def)
  have lc: "legalCount (recentThisOver s @ [newBallEvent (declareExtra k r)]) = 0"
    using assms(4) ev by (simp add: legalCount_def)
  show ?thesis
    using assms ev lc
    by (simp add: recordDelivery_def updateRecent_def isEdit_def Let_def)
qed

lemma extras_append:
  assumes "\<not> inningsOver s" and "wickets s < maxWickets s" and "overs s < targetOvers s"
    and "legalCount (recentThisOver s) = 0"
  shows "recentThisOver (applyCalls (map (\<lambda>(k, r). deliveryCall (declareExtra k r) None) es) s)
           = recentThisOver s @ map (\<lambda>(k, r). newBallEvent (declareExtra k r)) es
       \<and> overs (applyCalls (map (\<lambda>(k, r). deliveryCall (declareExtra k r) None) es) s) = overs s
       \<and> balls (applyCalls (map (\<lambda>(k, r). deliveryCall (declareExtra k r) None) es) s)
           = (if es = [] then balls s else 0)
       \<and> inningsOver (applyCalls (map (\<lambda>(k, r). deliveryCall (declareExtra k r) None) es) s)
           = False"
  using assms
proof (induction es arbitrary: s)
  case Nil
  then show ?case by simp
next
  case (Cons e es)
  obtain k r where e: "e = (k, r)" by (cases e)
  let ?s1 = "recordDelivery (declareExtra k r) None s"
  have s1: "?s1 = s\<lparr>runs := runs s + (1 + r),
               recentThisOver := recentThisOver s @ [newBallEvent (declareExtra k r)],
               balls := 0\<rparr>"
    using Cons.prems by (rule extra_step)
  have lc: "legalCount (recentThisOver ?s1) = 0"
    using Cons.prems(4) by (simp add: s1 legalCount_def newBallEvent_def)
  have pre: "\<not> inningsOver ?s1" "wickets ?s1 < maxWickets ?s1" "overs ?s1 < targetOvers ?s1"
    using Cons.prems by (simp_all add: s1)
  from Cons.IH [OF pre lc] show ?case
    by (simp add: e handleGeminiFunctionCall_def s1)
qed

text \<open>
  C10. The length of \<open>recentThisOver\<close> has no bound: only legal deliveries are capped.
  For every list of extras (kind and runs), however long, applying one \<open>declareExtra\<close>
  call per entry, without ball number, from the initial state leaves \<open>recentThisOver\<close>
  holding exactly their outcomes in order, so its length is the number of calls; no
  over completes (\<open>overs = 0\<close>, \<open>balls = 0\<close>) and the innings does not end.
\<close>

theorem extras_are_all_appended:
  "recentThisOver (applyCalls (map (\<lambda>(k, r). deliveryCall (declareExtra k r) None) es)
                     INITIAL_SCORE_STATE)
     = map (\<lambda>(k, r). newBallEvent (declareExtra k r)) es
   \<and> length (recentThisOver
               (applyCalls (map (\<lambda>(k, r). deliveryCall (declareExtra k r) None) es)
                  INITIAL_SCORE_STATE)) = length es
   \<and> overs (applyCalls (map (\<lambda>(k, r). deliveryCall (declareExtra k r) None) es)
                     INITIAL_SCORE_STATE) = 0
   \<and> balls (applyCalls (map (\<lambda>(k, r). deliveryCall (declareExtra k r) None) es)
                     INITIAL_SCORE_STATE) = 0
   \<and> \<not> inningsOver (applyCalls (map (\<lambda>(k, r). deliveryCall (declareExtra k r) None) es)
                     INITIAL_SCORE_STATE)"
proof -
  have i: "\<not> inningsOver INITIAL_SCORE_STATE"
     "wickets INITIAL_SCORE_STATE < maxWickets INITIAL_SCORE_STATE"
     "overs INITIAL_SCORE_STATE < targetOvers INITIAL_SCORE_STATE"
     "legalCount (recentThisOver INITIAL_SCORE_STATE) = 0"
    by (simp_all add: INITIAL_SCORE_STATE_def legalCount_def)
  have z: "recentThisOver INITIAL_SCORE_STATE = [] \<and> overs INITIAL_SCORE_STATE = 0
           \<and> balls INITIAL_SCORE_STATE = 0"
    by (simp add: INITIAL_SCORE_STATE_def)
  from extras_append [OF i, of es] z show ?thesis
    by (cases es) simp_all
qed

theorem extras_are_all_appended_witness:
  "map display
     (recentThisOver
        (applyCalls [deliveryCall (declareExtra wide 0) None,
                     deliveryCall (declareExtra no_ball 4) None,
                     deliveryCall (declareExtra wide 2) None,
                     deliveryCall (declareExtra no_ball 0) None,
                     deliveryCall (declareExtra wide 0) None,
                     deliveryCall (declareExtra wide 1) None,
                     deliveryCall (declareExtra no_ball 6) None] INITIAL_SCORE_STATE))
     = [''wd'', ''4nb'', ''2wd'', ''nb'', ''wd'', ''1wd'', ''6nb'']
   \<and> length
       (recentThisOver
          (applyCalls [deliveryCall (declareExtra wide 0) None,
                       deliveryCall (declareExtra no_ball 4) None,
                       deliveryCall (declareExtra wide 2) None,
                       deliveryCall (declareExtra no_ball 0) None,
                       deliveryCall (declareExtra wide 0) None,
                       deliveryCall (declareExtra wide 1) None,
                       deliveryCall (declareExtra no_ball 6) None] INITIAL_SCORE_STATE)) = 7"
  using extras_are_all_appended
          [of "[(wide, 0), (no_ball, 4), (wide, 2), (no_ball, 0), (wide, 0), (wide, 1),
                (no_ball, 6)]"]
  by (simp add: newBallEvent_def toString_def natToString.simps digitChar_def)

section \<open>The limit of wickets\<close>




end
